theory Spec2Isabelle
  imports Complex_Main
begin

section \<open>ghSpyglass: counting repositories over a date range\<close>

text \<open>
  A shallow embedding of \<^verbatim>\<open>gh_spyglass.py\<close>. Python strings are \<open>string\<close>,
  Python's unbounded integers are \<open>int\<close>, exceptions are values of \<open>error\<close>
  returned on the left of a sum.
\<close>

subsection \<open>Strings\<close>

text \<open>\<^verbatim>\<open>sep.join(parts)\<close> of Python.\<close>

fun str_join :: "string \<Rightarrow> string list \<Rightarrow> string" where
  "str_join sep [] = []"
| "str_join sep [x] = x"
| "str_join sep (x # y # ys) = x @ sep @ str_join sep (y # ys)"

subsection \<open>Exceptions\<close>

text \<open>
  The exceptions that reach the program: \<^verbatim>\<open>ValueError\<close> from \<^verbatim>\<open>datetime.strptime\<close>,
  \<^verbatim>\<open>requests.HTTPError\<close> (with the status) from \<^verbatim>\<open>raise_for_status\<close>, and
  \<^verbatim>\<open>OverflowError\<close> from datetime arithmetic that leaves the years 1 to 9999.
\<close>

datatype error = ValueError | HTTPError nat | OverflowError

subsection \<open>Calendar dates and datetimes of the standard library\<close>

text \<open>
  A naive \<^verbatim>\<open>datetime\<close> is its number of microseconds since 0001-01-01T00:00:00, a
  \<^verbatim>\<open>timedelta\<close> a number of microseconds, and a \<^verbatim>\<open>date\<close> its number of days since
  0001-01-01 (the proleptic Gregorian ordinal minus one). The largest datetime is
  9999-12-31T23:59:59.999999.
\<close>

type_synonym datetime = int
type_synonym timedelta = int

definition us_per_second :: int where
  "us_per_second = 1000000"

definition us_per_day :: int where
  "us_per_day = 86400000000"

definition datetime_max :: datetime where
  "datetime_max = 3652059 * 86400000000 - 1"

text \<open>\<^verbatim>\<open>dt.date()\<close>: the day of a datetime.\<close>

definition date_of :: "datetime \<Rightarrow> int" where
  "date_of t = t div us_per_day"

text \<open>
  \<^verbatim>\<open>timedelta / int\<close> rounds to the nearest microsecond, ties to even
  (\<^verbatim>\<open>_divide_and_round\<close> of \<^verbatim>\<open>datetime.py\<close>, for a positive divisor):
  \<^verbatim>\<open>
  q, r = divmod(a, b)
  r *= 2
  greater_than_half = r > b if b > 0 else r < b
  if greater_than_half or r == b and q % 2 == 1:
      q += 1
  return q
  \<close>
\<close>

definition divide_and_round :: "int \<Rightarrow> int \<Rightarrow> int" where
  "divide_and_round a b =
     (let q = a div b; r = a mod b; r = r * 2
      in if r > b \<or> (r = b \<and> q mod 2 = 1) then q + 1 else q)"

text \<open>The Gregorian calendar, as \<^verbatim>\<open>datetime.py\<close> computes it.\<close>

definition is_leap :: "int \<Rightarrow> bool" where
  "is_leap y = (y mod 4 = 0 \<and> (y mod 100 \<noteq> 0 \<or> y mod 400 = 0))"

definition DAYS_IN_MONTH :: "int list" where
  "DAYS_IN_MONTH = [-1, 31, 28, 31, 30, 31, 30, 31, 31, 30, 31, 30, 31]"

definition DAYS_BEFORE_MONTH :: "int list" where
  "DAYS_BEFORE_MONTH = [-1, 0, 31, 59, 90, 120, 151, 181, 212, 243, 273, 304, 334]"

definition days_in_month :: "int \<Rightarrow> int \<Rightarrow> int" where
  "days_in_month y m = (if m = 2 \<and> is_leap y then 29 else DAYS_IN_MONTH ! nat m)"

definition days_before_year :: "int \<Rightarrow> int" where
  "days_before_year year =
     (let y = year - 1 in y * 365 + y div 4 - y div 100 + y div 400)"

definition days_before_month :: "int \<Rightarrow> int \<Rightarrow> int" where
  "days_before_month y m =
     DAYS_BEFORE_MONTH ! nat m + (if m > 2 \<and> is_leap y then 1 else 0)"

definition ymd2ord :: "int \<Rightarrow> int \<Rightarrow> int \<Rightarrow> int" where
  "ymd2ord y m d = days_before_year y + days_before_month y m + d"

text \<open>
  \<^verbatim>\<open>_ord2ymd\<close>: the year, month and day of an ordinal (1 is 0001-01-01).
\<close>

definition ord2ymd :: "int \<Rightarrow> int \<times> int \<times> int" where
  "ord2ymd n0 =
     (let n = n0 - 1;
          n400 = n div 146097; n = n mod 146097;
          year = n400 * 400 + 1;
          n100 = n div 36524; n = n mod 36524;
          n4 = n div 1461; n = n mod 1461;
          n1 = n div 365; n = n mod 365;
          year = year + n100 * 100 + n4 * 4 + n1
      in if n1 = 4 \<or> n100 = 4 then (year - 1, 12, 31)
         else
           (let leapyear = (n1 = 3 \<and> (n4 \<noteq> 24 \<or> n100 = 3));
                month = (n + 50) div 32;
                preceding = DAYS_BEFORE_MONTH ! nat month
                            + (if month > 2 \<and> leapyear then 1 else 0)
            in if preceding > n
               then (let month = month - 1;
                         preceding = preceding
                           - (DAYS_IN_MONTH ! nat month
                              + (if month = 2 \<and> leapyear then 1 else 0))
                     in (year, month, n - preceding + 1))
               else (year, month, n - preceding + 1)))"

text \<open>
  \<^verbatim>\<open>date.isoformat()\<close> is \<^verbatim>\<open>"%04d-%02d-%02d" % (year, month, day)\<close>: decimal digits,
  padded with zeros on the left to the width.
\<close>

definition digit_char :: "int \<Rightarrow> char" where
  "digit_char n = ''0123456789'' ! nat n"

fun decimal :: "nat \<Rightarrow> string" where
  "decimal n = (if n < 10 then [digit_char (int n)]
                else decimal (n div 10) @ [digit_char (int (n mod 10))])"

declare decimal.simps [simp del]

definition zero_pad :: "nat \<Rightarrow> string \<Rightarrow> string" where
  "zero_pad width s = replicate (width - length s) CHR ''0'' @ s"

definition isoformat :: "int \<Rightarrow> string" where
  "isoformat day =
     (case ord2ymd (day + 1) of
        (y, m, d) \<Rightarrow> zero_pad 4 (decimal (nat y)) @ ''-'' @ zero_pad 2 (decimal (nat m))
                     @ ''-'' @ zero_pad 2 (decimal (nat d)))"

subsection \<open>parse\_date\<close>

text \<open>
  \<^verbatim>\<open>
  def parse_date(s):
      return datetime.strptime(s, "%Y-%m-%d")
  \<close>
  For the format \<^verbatim>\<open>%Y-%m-%d\<close> the standard library matches, from the start of the
  string, four digits, a hyphen, a month \<^verbatim>\<open>1[0-2]|0[1-9]|[1-9]\<close>, a hyphen and a day
  \<^verbatim>\<open>3[0-1]|[1-2]\d|0[1-9]|[1-9]| [1-9]\<close>, the alternatives tried in this order; it
  raises \<^verbatim>\<open>ValueError\<close> when the match fails, when text remains after it, and when
  the year, month and day are not a date of the calendar (the year 0, the 31st of April).
  The strings are ASCII.
\<close>

definition is_digit :: "char \<Rightarrow> bool" where
  "is_digit c = (48 \<le> (of_char c :: nat) \<and> (of_char c :: nat) \<le> 57)"

definition digit_val :: "char \<Rightarrow> int" where
  "digit_val c = int (of_char c) - 48"

definition in_range :: "char \<Rightarrow> char \<Rightarrow> char \<Rightarrow> bool" where
  "in_range lo hi c = ((of_char lo :: nat) \<le> of_char c \<and> (of_char c :: nat) \<le> of_char hi)"

fun match_year :: "string \<Rightarrow> (int \<times> string) option" where
  "match_year (a # b # c # d # rest) =
     (if is_digit a \<and> is_digit b \<and> is_digit c \<and> is_digit d
      then Some (digit_val a * 1000 + digit_val b * 100 + digit_val c * 10 + digit_val d, rest)
      else None)"
| "match_year _ = None"

fun match_hyphen :: "string \<Rightarrow> string option" where
  "match_hyphen (c # rest) = (if c = CHR ''-'' then Some rest else None)"
| "match_hyphen [] = None"

fun match_month :: "string \<Rightarrow> (int \<times> string) option" where
  "match_month (a # b # rest) =
     (if a = CHR ''1'' \<and> in_range CHR ''0'' CHR ''2'' b then Some (10 + digit_val b, rest)
      else if a = CHR ''0'' \<and> in_range CHR ''1'' CHR ''9'' b then Some (digit_val b, rest)
      else if in_range CHR ''1'' CHR ''9'' a then Some (digit_val a, b # rest)
      else None)"
| "match_month [a] = (if in_range CHR ''1'' CHR ''9'' a then Some (digit_val a, []) else None)"
| "match_month [] = None"

fun match_day :: "string \<Rightarrow> (int \<times> string) option" where
  "match_day (a # b # rest) =
     (if a = CHR ''3'' \<and> in_range CHR ''0'' CHR ''1'' b then Some (30 + digit_val b, rest)
      else if in_range CHR ''1'' CHR ''2'' a \<and> is_digit b
        then Some (digit_val a * 10 + digit_val b, rest)
      else if a = CHR ''0'' \<and> in_range CHR ''1'' CHR ''9'' b then Some (digit_val b, rest)
      else if in_range CHR ''1'' CHR ''9'' a then Some (digit_val a, b # rest)
      else if a = CHR '' '' \<and> in_range CHR ''1'' CHR ''9'' b then Some (digit_val b, rest)
      else None)"
| "match_day [a] = (if in_range CHR ''1'' CHR ''9'' a then Some (digit_val a, []) else None)"
| "match_day [] = None"

definition strptime_ymd :: "string \<Rightarrow> (int \<times> int \<times> int) option" where
  "strptime_ymd s =
     (case match_year s of None \<Rightarrow> None
      | Some (y, s1) \<Rightarrow>
     (case match_hyphen s1 of None \<Rightarrow> None
      | Some s2 \<Rightarrow>
     (case match_month s2 of None \<Rightarrow> None
      | Some (m, s3) \<Rightarrow>
     (case match_hyphen s3 of None \<Rightarrow> None
      | Some s4 \<Rightarrow>
     (case match_day s4 of None \<Rightarrow> None
      | Some (d, s5) \<Rightarrow> if s5 = [] then Some (y, m, d) else None)))))"

definition parse_date :: "string \<Rightarrow> error + datetime" where
  "parse_date s =
     (case strptime_ymd s of
        None \<Rightarrow> Inl ValueError
      | Some (y, m, d) \<Rightarrow>
          if 1 \<le> y \<and> y \<le> 9999 \<and> 1 \<le> m \<and> m \<le> 12 \<and> 1 \<le> d \<and> d \<le> days_in_month y m
          then Inr ((ymd2ord y m d - 1) * us_per_day)
          else Inl ValueError)"

subsection \<open>build\_query\<close>

text \<open>
  \<^verbatim>\<open>
  def build_query(topics, keywords):
      parts = []
      if topics:
          parts += [f"topic:{t}" for t in topics]
      if keywords:
          parts += [f"{k} in:name,description,readme" for k in keywords]
      if not parts:
          return ""
      if len(parts) == 1:
          return parts[0]
      return "(" + " OR ".join(parts) + ")"
  \<close>
\<close>

definition build_query :: "string list \<Rightarrow> string list \<Rightarrow> string" where
  "build_query topics keywords =
     (let parts = [];
          parts = (if topics \<noteq> [] then parts @ map (\<lambda>t. ''topic:'' @ t) topics else parts);
          parts = (if keywords \<noteq> []
                   then parts @ map (\<lambda>k. k @ '' in:name,description,readme'') keywords
                   else parts)
      in if parts = [] then ''''
         else if length parts = 1 then parts ! 0
         else ''('' @ str_join '' OR '' parts @ '')'')"

text \<open>
  The two kinds of search term of the specification, and the terms of a pair of lists in
  the order the specification gives them: topics first, then keywords, each in input order.
\<close>

definition topic_term :: "string \<Rightarrow> string" where
  "topic_term t = ''topic:'' @ t"

definition keyword_term :: "string \<Rightarrow> string" where
  "keyword_term k = k @ '' in:name,description,readme''"

definition terms_in_order :: "string list \<Rightarrow> string list \<Rightarrow> string list" where
  "terms_in_order topics keywords = map topic_term topics @ map keyword_term keywords"

subsection \<open>The remote search API\<close>

text \<open>
  A request as \<^verbatim>\<open>github_search_count\<close> sends it, and the reply of the server: the HTTP
  status and the JSON object of the body, of which the program reads integer fields
  (\<^verbatim>\<open>total_count\<close>) only. A remote source is any server, with a state of its own: it
  answers a request in a state and moves to a next state. A source whose answer depends on
  the query alone is the special case that ignores the state.
\<close>

record request =
  req_url :: string
  header_accept :: string
  header_authorization :: "string option"
  param_q :: string
  param_per_page :: int

type_synonym json_object = "string \<rightharpoonup> int"

record response =
  status_code :: nat
  json :: json_object

type_synonym 's remote = "request \<Rightarrow> 's \<Rightarrow> response \<times> 's"

text \<open>
  What the program does to the world: the requests it has sent, each with the reply it got
  (oldest first), the lines it has printed, and the pauses of \<^verbatim>\<open>time.sleep\<close>.
\<close>

datatype printed_line =
    Invalid_date error
  | Start_must_be_le_end
  | Provide_topic_or_keyword
  | Term_count string int
  | Total_sum_of_terms int
  | Total_matching int

record 's world =
  server :: 's
  exchanges :: "(request \<times> response) list"
  printed :: "printed_line list"
  slept :: "real list"

definition GITHUB_SEARCH_URL :: string where
  "GITHUB_SEARCH_URL = ''https://api.github.com/search/repositories''"

text \<open>
  \<^verbatim>\<open>Response.raise_for_status()\<close> of \<^verbatim>\<open>requests\<close> raises for the client and server
  error statuses, 400 to 599.
\<close>

definition is_error_status :: "nat \<Rightarrow> bool" where
  "is_error_status c = (400 \<le> c \<and> c < 600)"

text \<open>
  \<^verbatim>\<open>
  def github_search_count(query, token=None):
      headers = {"Accept": "application/vnd.github+json"}
      if token:
          headers["Authorization"] = f"token {token}"
      params = {"q": query, "per_page": 1}
      r = requests.get(GITHUB_SEARCH_URL, headers=headers, params=params, timeout=30)
      r.raise_for_status()
      return r.json()
  \<close>
\<close>

definition search_request :: "string \<Rightarrow> string option \<Rightarrow> request" where
  "search_request query token =
     \<lparr>req_url = GITHUB_SEARCH_URL,
      header_accept = ''application/vnd.github+json'',
      header_authorization =
        (case token of
           None \<Rightarrow> None
         | Some t \<Rightarrow> if t \<noteq> [] then Some (''token '' @ t) else None),
      param_q = query,
      param_per_page = 1\<rparr>"

definition github_search_count ::
  "'s remote \<Rightarrow> string \<Rightarrow> string option \<Rightarrow> 's world \<Rightarrow> (error + json_object) \<times> 's world" where
  "github_search_count remote query token w =
     (let req = search_request query token;
          (r, srv) = remote req (server w);
          w' = w\<lparr>server := srv, exchanges := exchanges w @ [(req, r)]\<rparr>
      in if is_error_status (status_code r) then (Inl (HTTPError (status_code r)), w')
         else (Inr (json r), w'))"

subsection \<open>count\_range\<close>

text \<open>
  \<^verbatim>\<open>
  def count_range(query_base, start, end, token, exact):
      date_range = f"created:{start.date().isoformat()}..{end.date().isoformat()}"
      full_query = f"{query_base} {date_range}" if query_base else date_range
      resp = github_search_count(full_query, token)
      total = int(resp.get("total_count", 0))
      if exact and total >= 1000 and start < end:
          mid = start + (end - start) / 2
          left = count_range(query_base, start, mid, token, exact)
          right_start = mid + timedelta(seconds=1)
          if right_start > end:
              return left
          right = count_range(query_base, right_start, end, token, exact)
          return left + right
      return total
  \<close>
  An exception of a call leaves the function at once, with the world as it is then.
  Adding the second to \<open>mid\<close> raises \<^verbatim>\<open>OverflowError\<close> when the sum is past the largest
  datetime.
\<close>

definition full_query_of :: "string \<Rightarrow> datetime \<Rightarrow> datetime \<Rightarrow> string" where
  "full_query_of query_base start end' =
     (let date_range = ''created:'' @ isoformat (date_of start) @ ''..''
                       @ isoformat (date_of end')
      in if query_base \<noteq> [] then query_base @ '' '' @ date_range else date_range)"

definition midpoint :: "datetime \<Rightarrow> datetime \<Rightarrow> datetime" where
  "midpoint start end' = start + divide_and_round (end' - start) 2"

text \<open>\<^verbatim>\<open>int(resp.get("total_count", 0))\<close>\<close>

definition total_of :: "json_object \<Rightarrow> int" where
  "total_of resp = (case resp ''total_count'' of None \<Rightarrow> 0 | Some v \<Rightarrow> v)"

function count_range ::
  "'s remote \<Rightarrow> string \<Rightarrow> datetime \<Rightarrow> datetime \<Rightarrow> string option \<Rightarrow> bool \<Rightarrow> 's world
     \<Rightarrow> (error + int) \<times> 's world" where
  "count_range remote query_base start end' token exact w =
     (case github_search_count remote (full_query_of query_base start end') token w of
        (Inl e, w1) \<Rightarrow> (Inl e, w1)
      | (Inr resp, w1) \<Rightarrow>
          (let total = total_of resp
           in if exact \<and> total \<ge> 1000 \<and> start < end'
              then
                (let mid = midpoint start end'
                 in case count_range remote query_base start mid token exact w1 of
                      (Inl e, w2) \<Rightarrow> (Inl e, w2)
                    | (Inr left, w2) \<Rightarrow>
                        if mid + us_per_second > datetime_max then (Inl OverflowError, w2)
                        else
                          (let right_start = mid + us_per_second
                           in if right_start > end' then (Inr left, w2)
                              else
                                (case count_range remote query_base right_start end'
                                        token exact w2 of
                                   (Inl e, w3) \<Rightarrow> (Inl e, w3)
                                 | (Inr right, w3) \<Rightarrow> (Inr (left + right), w3))))
              else (Inr total, w1)))"
  by pat_completeness auto

text \<open>
  The recursion ends: the midpoint of a range with \<open>start < end'\<close> lies in it and is
  before its end, so both sub-ranges are shorter than the range.
\<close>

lemma midpoint_bounds:
  "start < end' \<Longrightarrow> start \<le> midpoint start end' \<and> midpoint start end' < end'"
  unfolding midpoint_def divide_and_round_def Let_def
  by (simp split: if_splits) presburger

termination count_range
proof (relation "measure (\<lambda>(remote, qb, s, e, tok, ex, w). nat (e - s))", goal_cases)
  case 1
  show ?case by simp
next
  case (2 remote query_base start end' token exact w x y b xa xb)
  then have "start < end'" by simp
  from midpoint_bounds [OF this] 2 show ?case by simp
next
  case (3 remote query_base start end' token exact w x y b xa xb xc ya ba xd)
  then have "start < end'" by simp
  from midpoint_bounds [OF this] 3 show ?case by (simp add: us_per_second_def)
qed

declare count_range.simps [simp del]

subsection \<open>run\<close>

text \<open>
  The arguments as \<^verbatim>\<open>argparse\<close> hands them to \<^verbatim>\<open>run\<close>, with its defaults filled in
  (\<^verbatim>\<open>--start\<close> and \<^verbatim>\<open>--end\<close> are required, so they are always there).
\<close>

record args =
  arg_start :: string
  arg_end :: string
  arg_topics :: "string list"
  arg_keywords :: "string list"
  arg_per_term :: bool
  arg_token :: "string option"
  arg_exact :: bool
  arg_sleep :: real

definition print_line :: "printed_line \<Rightarrow> 's world \<Rightarrow> 's world" where
  "print_line l w = w\<lparr>printed := printed w @ [l]\<rparr>"

text \<open>\<^verbatim>\<open>results[t] = cnt\<close> on a dictionary kept as an association list.\<close>

fun dict_set :: "(string \<times> int) list \<Rightarrow> string \<Rightarrow> int \<Rightarrow> (string \<times> int) list" where
  "dict_set [] k v = [(k, v)]"
| "dict_set ((k', v') # kvs) k v =
     (if k' = k then (k, v) # kvs else (k', v') # dict_set kvs k v)"

text \<open>
  The loop of the per-term mode:
  \<^verbatim>\<open>
  for t in terms:
      cnt = count_range(t, start, end, token, args.exact)
      results[t] = cnt
      print(f"{t}: {cnt}")
      if args.sleep:
          time.sleep(args.sleep)
  \<close>
\<close>

fun per_term_loop ::
  "'s remote \<Rightarrow> string list \<Rightarrow> datetime \<Rightarrow> datetime \<Rightarrow> string option \<Rightarrow> bool \<Rightarrow> real
     \<Rightarrow> (string \<times> int) list \<Rightarrow> 's world \<Rightarrow> (error + (string \<times> int) list) \<times> 's world" where
  "per_term_loop remote [] start end' token exact sl results w = (Inr results, w)"
| "per_term_loop remote (t # ts) start end' token exact sl results w =
     (case count_range remote t start end' token exact w of
        (Inl e, w1) \<Rightarrow> (Inl e, w1)
      | (Inr cnt, w1) \<Rightarrow>
          (let results = dict_set results t cnt;
               w2 = print_line (Term_count t cnt) w1;
               w3 = (if sl \<noteq> 0 then w2\<lparr>slept := slept w2 @ [sl]\<rparr> else w2)
           in per_term_loop remote ts start end' token exact sl results w3))"

text \<open>
  \<^verbatim>\<open>run\<close> after \<^verbatim>\<open>parse_args\<close>. The value on the right is the exit code it returns, the
  value on the left an exception it does not catch. \<open>env_token\<close> is
  \<^verbatim>\<open>os.getenv("GITHUB_TOKEN")\<close>.
  \<^verbatim>\<open>
  try:
      start = parse_date(args.start)
      end = parse_date(args.end)
  except Exception as e:
      print(f"Invalid date: {e}")
      return 2
  if start > end:
      print("Start must be <= end")
      return 2
  token = args.token or os.getenv("GITHUB_TOKEN")
  query_base = build_query(args.topics, args.keywords)
  if not query_base:
      print("Provide at least one topic or keyword")
      return 2
  if args.per_term:
      results = {}
      terms = []
      terms += [f"topic:{t}" for t in args.topics]
      terms += [f"{k} in:name,description,readme" for k in args.keywords]
      for t in terms: ...
      total = sum(results.values())
      print(f"TOTAL (sum of terms): {total}")
  else:
      total = count_range(query_base, start, end, token, args.exact)
      print(f"TOTAL matching any provided topics/keywords: {total}")
  return 0
  \<close>
\<close>

definition run :: "'s remote \<Rightarrow> string option \<Rightarrow> args \<Rightarrow> 's world \<Rightarrow> (error + int) \<times> 's world" where
  "run remote env_token a w =
     (case parse_date (arg_start a) of
        Inl e \<Rightarrow> (Inr 2, print_line (Invalid_date e) w)
      | Inr start \<Rightarrow>
     (case parse_date (arg_end a) of
        Inl e \<Rightarrow> (Inr 2, print_line (Invalid_date e) w)
      | Inr end' \<Rightarrow>
          if start > end' then (Inr 2, print_line Start_must_be_le_end w)
          else
            (let token = (case arg_token a of
                            None \<Rightarrow> env_token
                          | Some t \<Rightarrow> if t \<noteq> [] then Some t else env_token);
                 query_base = build_query (arg_topics a) (arg_keywords a)
             in if query_base = [] then (Inr 2, print_line Provide_topic_or_keyword w)
                else if arg_per_term a
                then
                  (let terms = [];
                       terms = terms @ map (\<lambda>t. ''topic:'' @ t) (arg_topics a);
                       terms = terms @ map (\<lambda>k. k @ '' in:name,description,readme'')
                                           (arg_keywords a)
                   in case per_term_loop remote terms start end' token (arg_exact a)
                             (arg_sleep a) [] w of
                        (Inl e, w1) \<Rightarrow> (Inl e, w1)
                      | (Inr results, w1) \<Rightarrow>
                          (Inr 0, print_line (Total_sum_of_terms (sum_list (map snd results))) w1))
                else
                  (case count_range remote query_base start end' token (arg_exact a) w of
                     (Inl e, w1) \<Rightarrow> (Inl e, w1)
                   | (Inr total', w1) \<Rightarrow> (Inr 0, print_line (Total_matching total') w1)))))"

subsection \<open>Remote sources for the examples\<close>

text \<open>The world before the program runs, with a server in state \<open>s\<close>.\<close>

definition world0 :: "'s \<Rightarrow> 's world" where
  "world0 s = \<lparr>server = s, exchanges = [], printed = [], slept = []\<rparr>"

text \<open>A source that answers every query with status 200 and the same count.\<close>

definition const_remote :: "int \<Rightarrow> unit remote" where
  "const_remote n req s = (\<lparr>status_code = 200, json = [''total_count'' \<mapsto> n]\<rparr>, s)"

text \<open>A source that answers every query with status 200 and an object with no count.\<close>

definition no_count_remote :: "unit remote" where
  "no_count_remote req s = (\<lparr>status_code = 200, json = Map.empty\<rparr>, s)"

text \<open>
  A source with \<open>k\<close> matching repositories created on every day: it reads the two dates
  at the end of the query, \<^verbatim>\<open>created:YYYY-MM-DD..YYYY-MM-DD\<close>, and reports \<open>k\<close> times
  the number of days from the first to the last, both included.
\<close>

definition per_day_remote :: "int \<Rightarrow> unit remote" where
  "per_day_remote k req s =
     (let qs = param_q req;
          tail = drop (length qs - 22) qs
      in case (parse_date (take 10 tail), parse_date (drop 12 tail)) of
           (Inr a, Inr b) \<Rightarrow>
             (\<lparr>status_code = 200,
               json = [''total_count'' \<mapsto> k * (if a \<le> b then date_of b - date_of a + 1 else 0)]\<rparr>, s)
         | _ \<Rightarrow> (\<lparr>status_code = 422, json = Map.empty\<rparr>, s))"

text \<open>
  A source with a counter for its state: it answers the first \<open>n\<close> queries with status 200
  and the count \<open>c\<close>, and every later one with the status \<open>bad\<close> and no count.
\<close>

definition failing_after :: "nat \<Rightarrow> int \<Rightarrow> nat \<Rightarrow> nat remote" where
  "failing_after n c bad req s =
     (if s < n then (\<lparr>status_code = 200, json = [''total_count'' \<mapsto> c]\<rparr>, Suc s)
      else (\<lparr>status_code = bad, json = Map.empty\<rparr>, Suc s))"

text \<open>
  A source with a counter for its state: it answers the first query with status 200 and
  the count \<open>a\<close>, and every later one with status 200 and the count \<open>b\<close>.
\<close>

definition first_then :: "int \<Rightarrow> int \<Rightarrow> nat remote" where
  "first_then a b req s =
     (\<lparr>status_code = 200, json = [''total_count'' \<mapsto> (if s = 0 then a else b)]\<rparr>, Suc s)"

subsection \<open>The exchanges of a call\<close>

text \<open>
  A list of exchanges fits an outcome when it is not empty, no reply before the last has an
  error status, and the last reply has an error status exactly when the outcome is the
  \<open>HTTPError\<close> of that status.
\<close>

definition trace_ok :: "(error + int) \<Rightarrow> (request \<times> response) list \<Rightarrow> bool" where
  "trace_ok res xs \<longleftrightarrow>
     xs \<noteq> []
     \<and> (\<forall>x \<in> set (butlast xs). \<not> is_error_status (status_code (snd x)))
     \<and> (is_error_status (status_code (snd (last xs)))
          \<longrightarrow> res = Inl (HTTPError (status_code (snd (last xs)))))
     \<and> (\<forall>c. res = Inl (HTTPError c) \<longrightarrow> is_error_status (status_code (snd (last xs))))"

text \<open>The lines that the loop of the per-term mode prints.\<close>

fun is_term_count :: "printed_line \<Rightarrow> bool" where
  "is_term_count (Term_count t c) = True"
| "is_term_count _ = False"

section \<open>Properties\<close>

subsection \<open>One call of the remote source\<close>

lemma github_search_count_ok:
  assumes "remote (search_request query token) (server w) = (r, srv)"
    and "\<not> is_error_status (status_code r)"
  shows "github_search_count remote query token w
         = (Inr (json r),
            w\<lparr>server := srv, exchanges := exchanges w @ [(search_request query token, r)]\<rparr>)"
  using assms by (simp add: github_search_count_def Let_def)

lemma github_search_count_error:
  assumes "remote (search_request query token) (server w) = (r, srv)"
    and "is_error_status (status_code r)"
  shows "github_search_count remote query token w
         = (Inl (HTTPError (status_code r)),
            w\<lparr>server := srv, exchanges := exchanges w @ [(search_request query token, r)]\<rparr>)"
  using assms by (simp add: github_search_count_def Let_def)

lemma github_search_count_world:
  assumes "github_search_count remote query token w = (res, w1)"
  shows "\<exists>r. exchanges w1 = exchanges w @ [(search_request query token, r)]
             \<and> printed w1 = printed w \<and> slept w1 = slept w
             \<and> (case res of
                   Inl e \<Rightarrow> e = HTTPError (status_code r) \<and> is_error_status (status_code r)
                 | Inr resp \<Rightarrow> resp = json r \<and> \<not> is_error_status (status_code r))"
  using assms
  by (auto simp: github_search_count_def Let_def split: prod.splits if_splits)

lemma count_range_no_split:
  assumes "github_search_count remote (full_query_of query_base start end') token w = (Inr resp, w1)"
    and "\<not> (exact \<and> 1000 \<le> total_of resp \<and> start < end')"
  shows "count_range remote query_base start end' token exact w = (Inr (total_of resp), w1)"
  using assms by (subst count_range.simps) (auto simp: Let_def)

lemma count_range_first_error:
  assumes "github_search_count remote (full_query_of query_base start end') token w = (Inl e, w1)"
  shows "count_range remote query_base start end' token exact w = (Inl e, w1)"
  using assms by (subst count_range.simps) simp

lemma count_range_split_eq:
  assumes "github_search_count remote (full_query_of query_base start end') token w = (Inr resp, w1)"
    and "exact" and "1000 \<le> total_of resp" and "start < end'"
  shows "count_range remote query_base start end' token exact w =
          (case count_range remote query_base start (midpoint start end') token exact w1 of
             (Inl e, w2) \<Rightarrow> (Inl e, w2)
           | (Inr left, w2) \<Rightarrow>
               if midpoint start end' + us_per_second > datetime_max then (Inl OverflowError, w2)
               else if midpoint start end' + us_per_second > end' then (Inr left, w2)
               else (case count_range remote query_base (midpoint start end' + us_per_second) end'
                            token exact w2 of
                       (Inl e, w3) \<Rightarrow> (Inl e, w3)
                     | (Inr right, w3) \<Rightarrow> (Inr (left + right), w3)))"
  using assms by (subst count_range.simps) (auto simp: Let_def split: prod.splits sum.splits)



lemma trace_ok_single_error:
  "is_error_status (status_code r) \<Longrightarrow> trace_ok (Inl (HTTPError (status_code r))) [(q, r)]"
  by (simp add: trace_ok_def)

lemma trace_ok_single:
  "\<not> is_error_status (status_code r) \<Longrightarrow> \<forall>c. res \<noteq> Inl (HTTPError c) \<Longrightarrow> trace_ok res [(q, r)]"
  by (simp add: trace_ok_def)

lemma set_butlast_last: "ys \<noteq> [] \<Longrightarrow> set ys = insert (last ys) (set (butlast ys))"
proof -
  assume "ys \<noteq> []"
  then have "butlast ys @ [last ys] = ys"
    by (rule append_butlast_last_id)
  then have "set ys = set (butlast ys @ [last ys])"
    by (rule arg_cong [where f = set, symmetric])
  then show ?thesis
    by (simp only: set_append list.set Un_insert_right Un_empty_right)
qed

lemma trace_ok_all:
  assumes t: "trace_ok (Inr n) ys" and x: "x \<in> set ys"
  shows "\<not> is_error_status (status_code (snd x))"
proof -
  from t have ne: "ys \<noteq> []"
    and b: "\<forall>x \<in> set (butlast ys). \<not> is_error_status (status_code (snd x))"
    and l: "is_error_status (status_code (snd (last ys)))
              \<longrightarrow> (Inr n :: error + int) = Inl (HTTPError (status_code (snd (last ys))))"
    unfolding trace_ok_def by blast+
  from l have l': "\<not> is_error_status (status_code (snd (last ys)))"
    by blast
  from x set_butlast_last [OF ne] have "x = last ys \<or> x \<in> set (butlast ys)"
    by blast
  with b l' show ?thesis
    by blast
qed

lemma trace_ok_cons:
  assumes ok: "\<not> is_error_status (status_code (snd x))" and t: "trace_ok res ys"
  shows "trace_ok res (x # ys)"
proof -
  from t have ne: "ys \<noteq> []"
    unfolding trace_ok_def by blast
  then have b: "butlast (x # ys) = x # butlast ys" and l: "last (x # ys) = last ys"
    by simp_all
  from t ok show ?thesis
    unfolding trace_ok_def b l by simp
qed

lemma trace_ok_other:
  assumes "trace_ok (Inr n) ys" and "\<forall>c. res \<noteq> Inl (HTTPError c)"
  shows "trace_ok res ys"
proof -
  from assms(1) have "\<not> is_error_status (status_code (snd (last ys)))"
    unfolding trace_ok_def by blast
  with assms show ?thesis
    unfolding trace_ok_def by blast
qed

lemma trace_ok_append:
  assumes "trace_ok (Inr n) ys" and "trace_ok res zs"
  shows "trace_ok res (ys @ zs)"
proof -
  from assms(2) have ne: "zs \<noteq> []"
    unfolding trace_ok_def by blast
  then have b: "butlast (ys @ zs) = ys @ butlast zs" and l: "last (ys @ zs) = last zs"
    by (simp_all add: butlast_append)
  have "\<forall>x \<in> set ys. \<not> is_error_status (status_code (snd x))"
    using trace_ok_all [OF assms(1)] by blast
  with assms(2) ne show ?thesis
    unfolding trace_ok_def b l by auto
qed

lemma count_range_trace:
  "\<exists>xs. exchanges (snd (count_range remote query_base start end' token exact w))
              = exchanges w @ xs
        \<and> printed (snd (count_range remote query_base start end' token exact w)) = printed w
        \<and> slept (snd (count_range remote query_base start end' token exact w)) = slept w
        \<and> trace_ok (fst (count_range remote query_base start end' token exact w)) xs"
proof (induction remote query_base start end' token exact w rule: count_range.induct)
  case (1 remote query_base start end' token exact w)
  let ?q = "full_query_of query_base start end'"
  obtain res0 w1 where g: "github_search_count remote ?q token w = (res0, w1)"
    by (cases "github_search_count remote ?q token w")
  from github_search_count_world [OF g] obtain r where
    ex1: "exchanges w1 = exchanges w @ [(search_request ?q token, r)]"
    and pr1: "printed w1 = printed w" and sl1: "slept w1 = slept w"
    and r: "case res0 of
              Inl e \<Rightarrow> e = HTTPError (status_code r) \<and> is_error_status (status_code r)
            | Inr resp \<Rightarrow> resp = json r \<and> \<not> is_error_status (status_code r)"
    by blast
  let ?x = "(search_request ?q token, r)"
  show ?case
  proof (cases res0)
    case (Inl e)
    with g have c: "count_range remote query_base start end' token exact w = (Inl e, w1)"
      by (simp add: count_range_first_error)
    from r Inl have "trace_ok (Inl e) [?x]"
      by (simp add: trace_ok_single_error)
    with c ex1 pr1 sl1 show ?thesis by simp
  next
    case (Inr resp)
    with g have g': "github_search_count remote ?q token w = (Inr resp, w1)" by simp
    from r Inr have okx: "\<not> is_error_status (status_code (snd ?x))" by simp
    show ?thesis
    proof (cases "exact \<and> 1000 \<le> total_of resp \<and> start < end'")
      case False
      with g' have c: "count_range remote query_base start end' token exact w
                        = (Inr (total_of resp), w1)"
        by (rule count_range_no_split)
      from okx have "trace_ok (Inr (total_of resp)) [?x]"
        by (simp add: trace_ok_single)
      with c ex1 pr1 sl1 show ?thesis by simp
    next
      case True
      let ?mid = "midpoint start end'"
      let ?rs = "?mid + us_per_second"
      obtain r1 w2 where l: "count_range remote query_base start ?mid token exact w1 = (r1, w2)"
        by (cases "count_range remote query_base start ?mid token exact w1")
      from "1.IH"(1) [OF g' [symmetric] refl refl True refl] l obtain ys where
        ex2: "exchanges w2 = exchanges w1 @ ys"
        and pr2: "printed w2 = printed w1" and sl2: "slept w2 = slept w1"
        and t2: "trace_ok r1 ys"
        by auto
      from True have e: "exact" and big: "1000 \<le> total_of resp" and lt: "start < end'"
        by simp_all
      note eq = count_range_split_eq [OF g' e big lt, unfolded l]
      show ?thesis
      proof (cases r1)
        case (Inl err)
        with eq have c: "count_range remote query_base start end' token exact w = (Inl err, w2)"
          by simp
        from t2 Inl okx have "trace_ok (Inl err) (?x # ys)"
          by (simp add: trace_ok_cons)
        with c ex1 ex2 pr1 pr2 sl1 sl2 show ?thesis by simp
      next
        case (Inr left)
        note left = Inr
        show ?thesis
        proof (cases "datetime_max < ?rs")
          case True
          with eq left have c: "count_range remote query_base start end' token exact w
                                 = (Inl OverflowError, w2)"
            by simp
          from t2 left have "trace_ok (Inl OverflowError) ys"
            by (simp add: trace_ok_other)
          with okx have "trace_ok (Inl OverflowError) (?x # ys)"
            by (simp add: trace_ok_cons)
          with c ex1 ex2 pr1 pr2 sl1 sl2 show ?thesis by simp
        next
          case noov: False
          show ?thesis
          proof (cases "end' < ?rs")
            case True
            with eq left noov have c: "count_range remote query_base start end' token exact w
                                   = (Inr left, w2)"
              by simp
            from t2 left okx have "trace_ok (Inr left) (?x # ys)"
              by (simp add: trace_ok_cons)
            with c ex1 ex2 pr1 pr2 sl1 sl2 show ?thesis by simp
          next
            case fits: False
            obtain r2 w3 where rr: "count_range remote query_base ?rs end' token exact w2 = (r2, w3)"
              by (cases "count_range remote query_base ?rs end' token exact w2")
            from "1.IH"(2) [OF g' [symmetric] refl refl True refl l [symmetric] left noov refl fits]
              rr obtain zs where
              ex3: "exchanges w3 = exchanges w2 @ zs"
              and pr3: "printed w3 = printed w2" and sl3: "slept w3 = slept w2"
              and t3: "trace_ok r2 zs"
              by auto
            show ?thesis
            proof (cases r2)
              case (Inl err)
              with eq left noov fits rr
              have c: "count_range remote query_base start end' token exact w = (Inl err, w3)"
                by simp
              from t2 left t3 Inl have "trace_ok (Inl err) (ys @ zs)"
                by (simp add: trace_ok_append)
              with okx have "trace_ok (Inl err) (?x # ys @ zs)"
                by (simp add: trace_ok_cons)
              with c ex1 ex2 ex3 pr1 pr2 pr3 sl1 sl2 sl3 show ?thesis by simp
            next
              case (Inr right)
              with eq left noov fits rr
              have c: "count_range remote query_base start end' token exact w
                        = (Inr (left + right), w3)"
                by simp
              from t2 left t3 Inr have "trace_ok (Inr right) (ys @ zs)"
                by (simp add: trace_ok_append)
              then have "trace_ok (Inr (left + right)) (ys @ zs)"
                by (rule trace_ok_other) simp
              with okx have "trace_ok (Inr (left + right)) (?x # ys @ zs)"
                by (simp add: trace_ok_cons)
              with c ex1 ex2 ex3 pr1 pr2 pr3 sl1 sl2 sl3 show ?thesis by simp
            qed
          qed
        qed
      qed
    qed
  qed
qed

subsection \<open>build\_query\<close>

lemma topic_term_fun: "(\<lambda>t. ''topic:'' @ t) = topic_term"
  by (rule ext) (simp add: topic_term_def)

lemma keyword_term_fun: "(\<lambda>k. k @ '' in:name,description,readme'') = keyword_term"
  by (rule ext) (simp add: keyword_term_def)

lemma build_query_parts:
  "build_query topics keywords =
     (let parts = terms_in_order topics keywords
      in if parts = [] then ''''
         else if length parts = 1 then parts ! 0
         else ''('' @ str_join '' OR '' parts @ '')'')"
  unfolding build_query_def terms_in_order_def topic_term_fun keyword_term_fun Let_def
  by (cases topics; cases "keywords") simp_all

lemma length_terms_in_order:
  "length (terms_in_order topics keywords) = length topics + length keywords"
  by (simp add: terms_in_order_def)

text \<open>
  Claim C6. \<open>build_query\<close> returns the empty string when both lists are empty; the single
  term unmodified when exactly one term results (a topic \<open>t\<close> as \<^verbatim>\<open>topic:t\<close>, a keyword
  \<open>k\<close> as \<^verbatim>\<open>k in:name,description,readme\<close>); and otherwise all terms joined with
  \<^verbatim>\<open> OR \<close> inside one pair of parentheses.
\<close>

theorem build_query_cases:
  "build_query [] [] = ''''
   \<and> build_query [t] [] = ''topic:'' @ t
   \<and> build_query [] [k] = k @ '' in:name,description,readme''
   \<and> (length topics + length keywords = 1 \<longrightarrow>
        build_query topics keywords
          = hd (map (\<lambda>t. ''topic:'' @ t) topics
                @ map (\<lambda>k. k @ '' in:name,description,readme'') keywords))
   \<and> (2 \<le> length topics + length keywords \<longrightarrow>
        build_query topics keywords
          = ''('' @ str_join '' OR ''
                     (map (\<lambda>t. ''topic:'' @ t) topics
                      @ map (\<lambda>k. k @ '' in:name,description,readme'') keywords) @ '')'')"
proof -
  have e: "build_query [] [] = ''''"
    by (simp add: build_query_def)
  have t: "build_query [t] [] = ''topic:'' @ t"
    by (simp add: build_query_def)
  have k: "build_query [] [k] = k @ '' in:name,description,readme''"
    by (simp add: build_query_def)
  have one: "build_query topics keywords
          = hd (map (\<lambda>t. ''topic:'' @ t) topics
                @ map (\<lambda>k. k @ '' in:name,description,readme'') keywords)"
    if "length topics + length keywords = 1"
  proof -
    from that have "length (terms_in_order topics keywords) = 1"
      by (simp add: length_terms_in_order)
    then obtain x where x: "terms_in_order topics keywords = [x]"
      by (cases "terms_in_order topics keywords") simp_all
    show ?thesis
      using x unfolding build_query_parts
      by (simp add: terms_in_order_def topic_term_fun keyword_term_fun)
  qed
  have many: "build_query topics keywords
          = ''('' @ str_join '' OR ''
                     (map (\<lambda>t. ''topic:'' @ t) topics
                      @ map (\<lambda>k. k @ '' in:name,description,readme'') keywords) @ '')''"
    if "2 \<le> length topics + length keywords"
  proof -
    from that have "2 \<le> length (terms_in_order topics keywords)"
      by (simp add: length_terms_in_order)
    then have "terms_in_order topics keywords \<noteq> []"
      and "length (terms_in_order topics keywords) \<noteq> 1"
      by auto
    then show ?thesis
      unfolding build_query_parts topic_term_fun keyword_term_fun
        terms_in_order_def [symmetric]
      by (simp add: Let_def)
  qed
  from e t k one many show ?thesis by blast
qed

theorem build_query_cases_witness:
  "length [''cli''] + length [''tool''] \<noteq> 1
   \<and> 2 \<le> length [''cli''] + length [''tool'']
   \<and> build_query [''cli''] [''tool''] = ''(topic:cli OR tool in:name,description,readme)''
   \<and> length [''cli''] + length ([] :: string list) = 1
   \<and> build_query [''cli''] [] = ''topic:cli''"
  using build_query_cases [of "''cli''" "''tool''" "[''cli'']" "[''tool'']"]
        build_query_cases [of "''cli''" "''tool''" "[''cli'']" "[]"]
  by simp

text \<open>
  Claim C10. For a non-empty pair of lists the terms of the output stand in a fixed order:
  every topic term, in input order, and then every keyword term, in input order. The
  output is the rendering of exactly that list; term number \<open>i\<close> of it is the term of
  topic \<open>i\<close>, and term number \<open>length topics + j\<close> is the term of keyword \<open>j\<close>.
\<close>

theorem build_query_order:
  assumes "topics \<noteq> [] \<or> keywords \<noteq> []"
  shows "\<exists>parts. build_query topics keywords
                  = (if length parts = 1 then parts ! 0
                     else ''('' @ str_join '' OR '' parts @ '')'')
          \<and> length parts = length topics + length keywords
          \<and> (\<forall>i. i < length topics \<longrightarrow> parts ! i = ''topic:'' @ topics ! i)
          \<and> (\<forall>j. j < length keywords \<longrightarrow>
                 parts ! (length topics + j) = keywords ! j @ '' in:name,description,readme'')"
proof (intro exI conjI allI impI)
  let ?parts = "terms_in_order topics keywords"
  from assms have "?parts \<noteq> []"
    by (auto simp: terms_in_order_def)
  then show "build_query topics keywords
               = (if length ?parts = 1 then ?parts ! 0
                  else ''('' @ str_join '' OR '' ?parts @ '')'')"
    unfolding build_query_parts by (simp add: Let_def)
  show "length ?parts = length topics + length keywords"
    by (rule length_terms_in_order)
  show "?parts ! i = ''topic:'' @ topics ! i" if "i < length topics" for i
    using that by (simp add: terms_in_order_def nth_append topic_term_def)
  show "?parts ! (length topics + j) = keywords ! j @ '' in:name,description,readme''"
    if "j < length keywords" for j
    using that by (simp add: terms_in_order_def nth_append keyword_term_def)
qed

theorem build_query_order_witness:
  "[''cli'', ''api''] \<noteq> ([] :: string list)
   \<and> (\<exists>parts. build_query [''cli'', ''api''] [''tool'']
                  = (if length parts = 1 then parts ! 0
                     else ''('' @ str_join '' OR '' parts @ '')'')
          \<and> length parts = 3
          \<and> parts ! 0 = ''topic:cli'' \<and> parts ! 1 = ''topic:api''
          \<and> parts ! 2 = ''tool in:name,description,readme'')"
proof -
  have ne: "[''cli'', ''api''] \<noteq> [] \<or> [''tool''] \<noteq> []"
    by simp
  from build_query_order [OF ne] obtain parts where
    q: "build_query [''cli'', ''api''] [''tool'']
          = (if length parts = 1 then parts ! 0
             else ''('' @ str_join '' OR '' parts @ '')'')"
    and l: "length parts = length [''cli'', ''api''] + length [''tool'']"
    and t: "\<forall>i. i < length [''cli'', ''api''] \<longrightarrow> parts ! i = ''topic:'' @ [''cli'', ''api''] ! i"
    and k: "\<forall>j. j < length [''tool''] \<longrightarrow>
              parts ! (length [''cli'', ''api''] + j)
                = [''tool''] ! j @ '' in:name,description,readme''"
    by blast
  from t have t0: "parts ! 0 = ''topic:cli''" and t1: "parts ! 1 = ''topic:api''"
    by (simp_all add: nth_Cons')
  from k have k0: "parts ! 2 = ''tool in:name,description,readme''"
    by (simp add: numeral_2_eq_2)
  from l have l3: "length parts = 3"
    by simp
  have ne': "[''cli'', ''api''] \<noteq> ([] :: string list)"
    by simp
  from ne' q l3 t0 t1 k0 show ?thesis
    by blast
qed

subsection \<open>Every call sends a request; a source that never fails gets an answer\<close>

lemma count_range_exchanges_grow:
  "length (exchanges w) < length (exchanges (snd (count_range remote query_base start end' token exact w)))"
proof -
  from count_range_trace [of remote query_base start end' token exact w]
  obtain xs where
    "exchanges (snd (count_range remote query_base start end' token exact w)) = exchanges w @ xs"
    and "trace_ok (fst (count_range remote query_base start end' token exact w)) xs"
    by blast
  then show ?thesis
    by (simp add: trace_ok_def)
qed

lemma github_search_count_never_fails:
  assumes "\<forall>req s. \<not> is_error_status (status_code (fst (remote req s)))"
  shows "\<exists>resp w1. github_search_count remote query token w = (Inr resp, w1)"
proof -
  obtain r srv where rem: "remote (search_request query token) (server w) = (r, srv)"
    by (cases "remote (search_request query token) (server w)")
  from assms have "\<not> is_error_status (status_code (fst (remote (search_request query token) (server w))))"
    by blast
  with rem have "\<not> is_error_status (status_code r)"
    by simp
  from github_search_count_ok [of remote query token w r srv, OF rem this] show ?thesis
    by blast
qed

lemma count_range_returns:
  "\<forall>req s. \<not> is_error_status (status_code (fst (remote req s))) \<Longrightarrow>
   end' + us_per_second \<le> datetime_max \<Longrightarrow>
   \<exists>n w'. count_range remote query_base start end' token exact w = (Inr n, w')"
proof (induction remote query_base start end' token exact w rule: count_range.induct)
  case (1 remote query_base start end' token exact w)
  note ok = "1.prems"(1) and bound = "1.prems"(2)
  let ?q = "full_query_of query_base start end'"
  from github_search_count_never_fails [OF ok] obtain resp w1 where
    g: "github_search_count remote ?q token w = (Inr resp, w1)"
    by blast
  show ?case
  proof (cases "exact \<and> 1000 \<le> total_of resp \<and> start < end'")
    case False
    with g have "count_range remote query_base start end' token exact w = (Inr (total_of resp), w1)"
      by (rule count_range_no_split)
    then show ?thesis by blast
  next
    case True
    let ?mid = "midpoint start end'"
    let ?rs = "?mid + us_per_second"
    from True have e: "exact" and big: "1000 \<le> total_of resp" and lt: "start < end'"
      by simp_all
    from midpoint_bounds [OF lt] have mlt: "?mid < end'" and mge: "start \<le> ?mid"
      by simp_all
    from mlt bound have noov: "\<not> datetime_max < ?rs" and mbound: "?mid + us_per_second \<le> datetime_max"
      by simp_all
    from "1.IH"(1) [OF g [symmetric] refl refl True refl ok mbound] obtain left w2 where
      l: "count_range remote query_base start ?mid token exact w1 = (Inr left, w2)"
      by blast
    note eq = count_range_split_eq [OF g e big lt, unfolded l]
    show ?thesis
    proof (cases "end' < ?rs")
      case True
      with eq noov have "count_range remote query_base start end' token exact w = (Inr left, w2)"
        by simp
      then show ?thesis by blast
    next
      case fits: False
      from "1.IH"(2) [OF g [symmetric] refl refl True refl l [symmetric] refl noov refl fits ok bound]
      obtain right w3 where
        rr: "count_range remote query_base ?rs end' token exact w2 = (Inr right, w3)"
        by blast
      with eq noov fits
      have "count_range remote query_base start end' token exact w = (Inr (left + right), w3)"
        by simp
      then show ?thesis by blast
    qed
  qed
qed


subsection \<open>count\_range without a split\<close>

text \<open>
  Claim C5. With \<open>exact\<close> false, \<open>count_range\<close> sends exactly one request, the count
  query of the range, and returns the \<^verbatim>\<open>total_count\<close> of the reply as it is, whatever
  its value.
\<close>

theorem count_range_not_exact:
  assumes reply: "remote (search_request (full_query_of query_base start end') token) (server w)
                    = (r, srv)"
    and ok: "\<not> is_error_status (status_code r)"
    and cnt: "json r ''total_count'' = Some n"
  shows "count_range remote query_base start end' token False w
           = (Inr n,
              w\<lparr>server := srv,
                exchanges := exchanges w
                   @ [(search_request (full_query_of query_base start end') token, r)]\<rparr>)"
proof -
  let ?q = "full_query_of query_base start end'"
  from github_search_count_ok [of remote ?q token w r srv, OF reply ok]
  have g: "github_search_count remote ?q token w
             = (Inr (json r),
                w\<lparr>server := srv, exchanges := exchanges w @ [(search_request ?q token, r)]\<rparr>)" .
  from cnt have t: "total_of (json r) = n"
    by (simp add: total_of_def)
  have "\<not> (False \<and> 1000 \<le> total_of (json r) \<and> start < end')"
    by simp
  from count_range_no_split [OF g this] t show ?thesis
    by simp
qed

theorem count_range_not_exact_witness:
  "fst (count_range (const_remote 5000) ''topic:cli'' 63713433600000000 63744969600000000
          None False (world0 ())) = Inr 5000
   \<and> length (exchanges (snd (count_range (const_remote 5000) ''topic:cli'' 63713433600000000
          63744969600000000 None False (world0 ())))) = 1"
proof -
  let ?req = "search_request (full_query_of ''topic:cli'' 63713433600000000 63744969600000000) None"
  let ?r = "\<lparr>status_code = 200, json = [''total_count'' \<mapsto> 5000]\<rparr>"
  have reply: "const_remote 5000 ?req (server (world0 ())) = (?r, ())"
    by (simp add: const_remote_def)
  have ok: "\<not> is_error_status (status_code ?r)"
    by (simp add: is_error_status_def)
  have cnt: "json ?r ''total_count'' = Some 5000"
    by simp
  from count_range_not_exact [of "const_remote 5000" "''topic:cli''" 63713433600000000
      63744969600000000 None "world0 ()" ?r "()" 5000, OF reply ok cnt]
  show ?thesis
    by (simp add: world0_def)
qed

text \<open>
  Claim C9. When the reply is a JSON object with no \<^verbatim>\<open>total_count\<close>, the count is
  taken as zero: \<open>count_range\<close> returns 0 after the one request, with \<open>exact\<close> false
  and with \<open>exact\<close> true (zero is below the cap, so nothing is split).
\<close>

theorem count_range_missing_total_count:
  assumes reply: "remote (search_request (full_query_of query_base start end') token) (server w)
                    = (r, srv)"
    and ok: "\<not> is_error_status (status_code r)"
    and missing: "json r ''total_count'' = None"
  shows "count_range remote query_base start end' token exact w
           = (Inr 0,
              w\<lparr>server := srv,
                exchanges := exchanges w
                   @ [(search_request (full_query_of query_base start end') token, r)]\<rparr>)"
proof -
  let ?q = "full_query_of query_base start end'"
  from github_search_count_ok [of remote ?q token w r srv, OF reply ok]
  have g: "github_search_count remote ?q token w
             = (Inr (json r),
                w\<lparr>server := srv, exchanges := exchanges w @ [(search_request ?q token, r)]\<rparr>)" .
  from missing have t: "total_of (json r) = 0"
    by (simp add: total_of_def)
  then have "\<not> (exact \<and> 1000 \<le> total_of (json r) \<and> start < end')"
    by simp
  from count_range_no_split [OF g this] t show ?thesis
    by simp
qed

theorem count_range_missing_total_count_witness:
  "fst (count_range no_count_remote ''topic:cli'' 63713433600000000 63744969600000000
          None True (world0 ())) = Inr 0
   \<and> fst (count_range no_count_remote ''topic:cli'' 63713433600000000 63744969600000000
          None False (world0 ())) = Inr 0
   \<and> length (exchanges (snd (count_range no_count_remote ''topic:cli'' 63713433600000000
          63744969600000000 None True (world0 ())))) = 1"
proof -
  let ?req = "search_request (full_query_of ''topic:cli'' 63713433600000000 63744969600000000) None"
  let ?r = "\<lparr>status_code = 200, json = Map.empty\<rparr>"
  have reply: "no_count_remote ?req (server (world0 ())) = (?r, ())"
    by (simp add: no_count_remote_def)
  have ok: "\<not> is_error_status (status_code ?r)"
    by (simp add: is_error_status_def)
  have missing: "json ?r ''total_count'' = None"
    by simp
  from count_range_missing_total_count [of no_count_remote "''topic:cli''" 63713433600000000
      63744969600000000 None "world0 ()" ?r "()" True, OF reply ok missing]
    count_range_missing_total_count [of no_count_remote "''topic:cli''" 63713433600000000
      63744969600000000 None "world0 ()" ?r "()" False, OF reply ok missing]
  show ?thesis
    by (simp add: world0_def)
qed

subsection \<open>Evaluation on small ranges\<close>

lemmas count_range_eval = count_range.simps github_search_count_def total_of_def
  midpoint_def divide_and_round_def Let_def us_per_second_def datetime_max_def world0_def
  is_error_status_def

text \<open>
  A source that reports 1000 for every query, asked in exact mode for the range from
  2020-01-01T00:00:00 to one microsecond later: two requests, the result 1000.
\<close>

lemma const_1000_one_microsecond:
  "count_range (const_remote 1000) ''topic:cli'' 63713433600000000 63713433600000001 None True
     (world0 ())
   = (Inr 1000,
      \<lparr>server = (),
       exchanges =
         [(search_request (full_query_of ''topic:cli'' 63713433600000000 63713433600000001) None,
           \<lparr>status_code = 200, json = [''total_count'' \<mapsto> 1000]\<rparr>),
          (search_request (full_query_of ''topic:cli'' 63713433600000000 63713433600000000) None,
           \<lparr>status_code = 200, json = [''total_count'' \<mapsto> 1000]\<rparr>)],
       printed = [], slept = []\<rparr>)"
  by (simp add: count_range_eval const_remote_def)

text \<open>The same source and the range from 2020-01-01T00:00:00 to two seconds later.\<close>

lemma const_1000_two_seconds:
  "fst (count_range (const_remote 1000) ''topic:cli'' 63713433600000000 63713433602000000
          None True (world0 ())) = Inr 2000
   \<and> length (exchanges (snd (count_range (const_remote 1000) ''topic:cli'' 63713433600000000
          63713433602000000 None True (world0 ())))) = 24"
  by (simp add: count_range_eval const_remote_def)

lemma same_day_two_seconds: "date_of 63713433600000000 = date_of 63713433602000000"
  by (simp add: date_of_def us_per_day_def)

lemma const_remote_first_reply:
  "github_search_count (const_remote n) query token (world0 ())
   = (Inr [''total_count'' \<mapsto> n],
      \<lparr>server = (),
       exchanges = [(search_request query token,
                     \<lparr>status_code = 200, json = [''total_count'' \<mapsto> n]\<rparr>)],
       printed = [], slept = []\<rparr>)"
  by (simp add: github_search_count_def const_remote_def world0_def is_error_status_def Let_def)

subsection \<open>When count\_range splits\<close>

lemma count_range_split_grows:
  assumes g: "github_search_count remote (full_query_of query_base start end') token w = (Inr resp, w1)"
    and split: "exact \<and> 1000 \<le> total_of resp \<and> start < end'"
  shows "\<exists>zs. exchanges (snd (count_range remote query_base start end' token exact w))
              = exchanges (snd (count_range remote query_base start (midpoint start end')
                                  token exact w1)) @ zs"
proof -
  let ?mid = "midpoint start end'"
  let ?rs = "?mid + us_per_second"
  obtain r1 w2 where l: "count_range remote query_base start ?mid token exact w1 = (r1, w2)"
    by (cases "count_range remote query_base start ?mid token exact w1")
  from split have e: "exact" and big: "1000 \<le> total_of resp" and lt: "start < end'"
    by simp_all
  note eq = count_range_split_eq [OF g e big lt, unfolded l]
  obtain r2 w3 where rr: "count_range remote query_base ?rs end' token exact w2 = (r2, w3)"
    by (cases "count_range remote query_base ?rs end' token exact w2")
  from count_range_trace [of remote query_base ?rs end' token exact w2] rr
  obtain zs where z: "exchanges w3 = exchanges w2 @ zs"
    by auto
  from eq rr have "snd (count_range remote query_base start end' token exact w) = w2
                   \<or> snd (count_range remote query_base start end' token exact w) = w3"
    by (auto split: sum.splits if_splits)
  with z l show ?thesis
    by auto
qed

text \<open>
  Claim C3, as the code has it. After the first reply, the total is returned as it is, with
  no further request, when \<open>exact\<close> is false, or the total is below 1000, or \<open>start\<close> is not
  before \<open>end'\<close> as a datetime (the time of day counts: two datetimes of one calendar date
  are not equal for that); otherwise the range is split: the function goes on to count
  the range from \<open>start\<close> to the midpoint, so more requests follow the first.
\<close>

theorem count_range_split_condition:
  assumes g: "github_search_count remote (full_query_of query_base start end') token w = (Inr resp, w1)"
  shows "(\<not> exact \<or> total_of resp < 1000 \<or> \<not> start < end'
            \<longrightarrow> count_range remote query_base start end' token exact w = (Inr (total_of resp), w1))
       \<and> (exact \<and> 1000 \<le> total_of resp \<and> start < end'
            \<longrightarrow> length (exchanges w1)
                  < length (exchanges (snd (count_range remote query_base start end' token exact w)))
                \<and> (\<exists>zs. exchanges (snd (count_range remote query_base start end' token exact w))
                      = exchanges (snd (count_range remote query_base start
                                          (midpoint start end') token exact w1)) @ zs))"
proof (intro conjI impI)
  assume "\<not> exact \<or> total_of resp < 1000 \<or> \<not> start < end'"
  then have "\<not> (exact \<and> 1000 \<le> total_of resp \<and> start < end')"
    by auto
  with g show "count_range remote query_base start end' token exact w = (Inr (total_of resp), w1)"
    by (rule count_range_no_split)
next
  assume split: "exact \<and> 1000 \<le> total_of resp \<and> start < end'"
  from count_range_split_grows [OF g split]
  show p: "\<exists>zs. exchanges (snd (count_range remote query_base start end' token exact w))
              = exchanges (snd (count_range remote query_base start (midpoint start end')
                                  token exact w1)) @ zs" .
  from p count_range_exchanges_grow [of w1 remote query_base start "midpoint start end'" token exact]
  show "length (exchanges w1)
          < length (exchanges (snd (count_range remote query_base start end' token exact w)))"
    by auto
qed

theorem count_range_split_condition_witness:
  "fst (count_range (const_remote 42) ''topic:cli'' 63713433600000000 63713433602000000
          None True (world0 ())) = Inr 42
   \<and> length (exchanges (snd (count_range (const_remote 42) ''topic:cli'' 63713433600000000
          63713433602000000 None True (world0 ())))) = 1
   \<and> 1 < length (exchanges (snd (count_range (const_remote 1000) ''topic:cli''
          63713433600000000 63713433602000000 None True (world0 ()))))"
proof -
  let ?q = "full_query_of ''topic:cli'' 63713433600000000 63713433602000000"
  have t42: "total_of [''total_count'' \<mapsto> 42] = 42"
    and t1000: "total_of [''total_count'' \<mapsto> 1000] = 1000"
    by (simp_all add: total_of_def)
  from count_range_split_condition [OF const_remote_first_reply [of 42 ?q None], of True]
    count_range_split_condition [OF const_remote_first_reply [of 1000 ?q None], of True]
  show ?thesis
    by (simp add: t42 t1000)
qed

theorem count_range_same_date_counterexample:
  "date_of 63713433600000000 = date_of 63713433602000000
   \<and> fst (github_search_count (const_remote 1000)
            (full_query_of ''topic:cli'' 63713433600000000 63713433602000000) None (world0 ()))
       = Inr [''total_count'' \<mapsto> 1000]
   \<and> total_of [''total_count'' \<mapsto> 1000] = 1000
   \<and> fst (count_range (const_remote 1000) ''topic:cli'' 63713433600000000 63713433602000000
            None True (world0 ())) = Inr 2000
   \<and> length (exchanges (snd (count_range (const_remote 1000) ''topic:cli'' 63713433600000000
            63713433602000000 None True (world0 ())))) = 24"
  using same_day_two_seconds const_1000_two_seconds
  by (simp add: const_remote_first_reply total_of_def)

subsection \<open>The bisection\<close>

lemma midpoint_near_half:
  "\<bar>2 * (midpoint start end' - start) - (end' - start)\<bar> \<le> 1"
  unfolding midpoint_def divide_and_round_def Let_def
  by (simp split: if_splits) presburger

lemma midpoint_even:
  "even (end' - start) \<Longrightarrow> midpoint start end' = start + (end' - start) div 2"
  unfolding midpoint_def divide_and_round_def Let_def
  by (simp split: if_splits)

text \<open>
  Claim C4. When \<open>count_range\<close> splits in exact mode, the midpoint is
  \<open>start + (end' - start) / 2\<close> (the division of \<^verbatim>\<open>timedelta\<close> by 2: exact when the
  number of microseconds is even, else the nearer even half), the left recursion counts the
  range from \<open>start\<close> to the midpoint, and the right range starts one second after the
  midpoint: when that is past \<open>end'\<close> the result is the left count alone, otherwise it is
  the left count plus the count of the range from there to \<open>end'\<close>.
\<close>

theorem count_range_bisects:
  assumes g: "github_search_count remote (full_query_of query_base start end') token w
                = (Inr resp, w1)"
    and big: "1000 \<le> total_of resp"
    and lt: "start < end'"
    and representable: "midpoint start end' + us_per_second \<le> datetime_max"
    and l: "count_range remote query_base start (midpoint start end') token True w1
              = (Inr left, w2)"
  shows "midpoint start end' = start + divide_and_round (end' - start) 2
       \<and> \<bar>2 * (midpoint start end' - start) - (end' - start)\<bar> \<le> 1
       \<and> (end' < midpoint start end' + us_per_second
            \<longrightarrow> count_range remote query_base start end' token True w = (Inr left, w2))
       \<and> (midpoint start end' + us_per_second \<le> end'
            \<longrightarrow> (\<forall>right w3.
                   count_range remote query_base (midpoint start end' + us_per_second) end'
                     token True w2 = (Inr right, w3)
                   \<longrightarrow> count_range remote query_base start end' token True w
                         = (Inr (left + right), w3)))"
proof -
  note eq = count_range_split_eq [OF g TrueI big lt, unfolded l]
  from representable have noov: "\<not> datetime_max < midpoint start end' + us_per_second"
    by simp
  have a: "count_range remote query_base start end' token True w = (Inr left, w2)"
    if "end' < midpoint start end' + us_per_second"
    using eq noov that by simp
  have b: "count_range remote query_base start end' token True w = (Inr (left + right), w3)"
    if "midpoint start end' + us_per_second \<le> end'"
      and "count_range remote query_base (midpoint start end' + us_per_second) end'
             token True w2 = (Inr right, w3)"
    for right w3
    using eq noov that by simp
  have m: "midpoint start end' = start + divide_and_round (end' - start) 2"
    by (simp add: midpoint_def)
  from m midpoint_near_half a b show ?thesis
    by blast
qed

lemma first_then_first_reply:
  "github_search_count (first_then a b) query token (world0 0)
   = (Inr [''total_count'' \<mapsto> a],
      \<lparr>server = Suc 0,
       exchanges = [(search_request query token,
                     \<lparr>status_code = 200, json = [''total_count'' \<mapsto> a]\<rparr>)],
       printed = [], slept = []\<rparr>)"
  by (simp add: github_search_count_def first_then_def world0_def is_error_status_def Let_def)

theorem count_range_bisects_witness:
  "fst (count_range (const_remote 1000) ''topic:cli'' 63713433600000000 63713433600000001
          None True (world0 ())) = Inr 1000
   \<and> fst (count_range (first_then 1000 7) ''topic:cli'' 63713433600000000 63713433602000000
          None True (world0 0)) = Inr 14"
proof -
  let ?s = "63713433600000000 :: int"
  have t: "(1000::int) \<le> total_of [''total_count'' \<mapsto> 1000]"
    by (simp add: total_of_def)
  \<comment> \<open>the right range is empty: one microsecond\<close>
  let ?e1 = "63713433600000001 :: int"
  let ?w1 = "snd (github_search_count (const_remote 1000) (full_query_of ''topic:cli'' ?s ?e1)
                    None (world0 ()))"
  have g1: "github_search_count (const_remote 1000) (full_query_of ''topic:cli'' ?s ?e1) None
              (world0 ()) = (Inr [''total_count'' \<mapsto> 1000], ?w1)"
    by (simp add: const_remote_first_reply)
  have lt1: "?s < ?e1" by simp
  have m1: "midpoint ?s ?e1 = ?s"
    by (simp add: midpoint_def divide_and_round_def)
  have rep1: "midpoint ?s ?e1 + us_per_second \<le> datetime_max"
    by (simp add: m1 us_per_second_def datetime_max_def)
  obtain w2 where l1: "count_range (const_remote 1000) ''topic:cli'' ?s (midpoint ?s ?e1) None
                         True ?w1 = (Inr 1000, w2)"
    by (simp add: m1 const_remote_first_reply count_range_eval const_remote_def)
  have past1: "?e1 < midpoint ?s ?e1 + us_per_second"
    by (simp add: m1 us_per_second_def)
  from count_range_bisects [OF g1 t lt1 rep1 l1] past1
  have r1: "fst (count_range (const_remote 1000) ''topic:cli'' ?s ?e1 None True (world0 ()))
              = Inr 1000"
    by simp
  \<comment> \<open>both ranges are counted: two seconds\<close>
  let ?e2 = "63713433602000000 :: int"
  let ?v1 = "snd (github_search_count (first_then 1000 7) (full_query_of ''topic:cli'' ?s ?e2)
                    None (world0 0))"
  have g2: "github_search_count (first_then 1000 7) (full_query_of ''topic:cli'' ?s ?e2) None
              (world0 0) = (Inr [''total_count'' \<mapsto> 1000], ?v1)"
    by (simp add: first_then_first_reply)
  have lt2: "?s < ?e2" by simp
  have m2: "midpoint ?s ?e2 = 63713433601000000"
    by (simp add: midpoint_def divide_and_round_def)
  have rep2: "midpoint ?s ?e2 + us_per_second \<le> datetime_max"
    by (simp add: m2 us_per_second_def datetime_max_def)
  obtain v2 where l2: "count_range (first_then 1000 7) ''topic:cli'' ?s (midpoint ?s ?e2) None
                         True ?v1 = (Inr 7, v2)"
    and sv2: "server v2 = 2"
    by (simp add: m2 first_then_first_reply count_range_eval first_then_def)
  have fits2: "midpoint ?s ?e2 + us_per_second \<le> ?e2"
    by (simp add: m2 us_per_second_def)
  obtain v3 where rr2: "count_range (first_then 1000 7) ''topic:cli''
                          (midpoint ?s ?e2 + us_per_second) ?e2 None True v2 = (Inr 7, v3)"
    using sv2 by (simp add: m2 count_range_eval first_then_def)
  from count_range_bisects [OF g2 t lt2 rep2 l2] fits2 rr2
  have r2: "fst (count_range (first_then 1000 7) ''topic:cli'' ?s ?e2 None True (world0 0))
              = Inr 14"
    by simp
  from r1 r2 show ?thesis
    by blast
qed


subsection \<open>Termination\<close>

text \<open>
  Claim C2. For a range with \<open>start \<le> end'\<close> and a source that answers every query (that
  of the claim, reporting 1000 for every query, is one), \<open>count_range\<close> in exact mode
  returns a sum. The function is total: its recursion is accepted with the length of the
  range as the measure, and both sub-ranges of a split are shorter than the range. A range
  with \<open>start = end'\<close> is not split: the result is the total of the single reply. The
  range ends at least a second before the largest datetime, which holds for every date.
\<close>

theorem count_range_terminates:
  assumes le: "start \<le> end'"
    and representable: "end' + us_per_second \<le> datetime_max"
    and answers: "\<forall>req s. \<not> is_error_status (status_code (fst (remote req s)))"
  shows "(\<exists>n w'. count_range remote query_base start end' token True w = (Inr n, w'))
       \<and> (start < end'
            \<longrightarrow> nat (midpoint start end' - start) < nat (end' - start)
                \<and> (midpoint start end' + us_per_second \<le> end'
                     \<longrightarrow> nat (end' - (midpoint start end' + us_per_second))
                           < nat (end' - start)))
       \<and> (start = end'
            \<longrightarrow> (\<exists>resp w1.
                   github_search_count remote (full_query_of query_base start end') token w
                     = (Inr resp, w1)
                   \<and> count_range remote query_base start end' token True w
                       = (Inr (total_of resp), w1)))"
proof (intro conjI impI)
  from count_range_returns [OF answers representable]
  show "\<exists>n w'. count_range remote query_base start end' token True w = (Inr n, w')" .
next
  assume "start < end'"
  from midpoint_bounds [OF this]
  show "nat (midpoint start end' - start) < nat (end' - start)"
    by simp
next
  assume "start < end'" and "midpoint start end' + us_per_second \<le> end'"
  with midpoint_bounds [of start end']
  show "nat (end' - (midpoint start end' + us_per_second)) < nat (end' - start)"
    by (simp add: us_per_second_def)
next
  assume eq: "start = end'"
  from github_search_count_never_fails [OF answers] obtain resp w1 where
    g: "github_search_count remote (full_query_of query_base start end') token w = (Inr resp, w1)"
    by blast
  from eq have "\<not> (True \<and> 1000 \<le> total_of resp \<and> start < end')"
    by simp
  from count_range_no_split [OF g this] g
  show "\<exists>resp w1.
          github_search_count remote (full_query_of query_base start end') token w = (Inr resp, w1)
          \<and> count_range remote query_base start end' token True w = (Inr (total_of resp), w1)"
    by blast
qed

theorem count_range_terminates_witness:
  "(\<exists>n w'. count_range (const_remote 1000) ''topic:cli'' 63713433600000000 63744969600000000
              None True (world0 ()) = (Inr n, w'))
   \<and> nat (midpoint 63713433600000000 63744969600000000 - 63713433600000000)
       < nat (63744969600000000 - 63713433600000000)
   \<and> nat (63744969600000000 - (midpoint 63713433600000000 63744969600000000 + us_per_second))
       < nat (63744969600000000 - 63713433600000000)
   \<and> count_range (const_remote 1000) ''topic:cli'' 63713433600000000 63713433600000000
         None True (world0 ())
       = (Inr 1000,
          \<lparr>server = (),
           exchanges =
             [(search_request (full_query_of ''topic:cli'' 63713433600000000 63713433600000000)
                 None,
               \<lparr>status_code = 200, json = [''total_count'' \<mapsto> 1000]\<rparr>)],
           printed = [], slept = []\<rparr>)"
proof -
  let ?s = "63713433600000000 :: int"
  let ?e = "63744969600000000 :: int"
  have answers: "\<forall>req s. \<not> is_error_status (status_code (fst (const_remote 1000 req s)))"
    by (simp add: const_remote_def is_error_status_def)
  have le: "?s \<le> ?e" and lt: "?s < ?e" and same: "?s \<le> ?s"
    by simp_all
  have rep: "?e + us_per_second \<le> datetime_max" and rep': "?s + us_per_second \<le> datetime_max"
    by (simp_all add: us_per_second_def datetime_max_def)
  have fits: "midpoint ?s ?e + us_per_second \<le> ?e"
    by (simp add: midpoint_def divide_and_round_def us_per_second_def)
  from count_range_terminates [OF le rep answers, of "''topic:cli''" None "world0 ()"] lt fits
  have a: "(\<exists>n w'. count_range (const_remote 1000) ''topic:cli'' ?s ?e None True (world0 ())
                     = (Inr n, w'))
           \<and> nat (midpoint ?s ?e - ?s) < nat (?e - ?s)
           \<and> nat (?e - (midpoint ?s ?e + us_per_second)) < nat (?e - ?s)"
    by blast
  from count_range_terminates [OF same rep' answers, of "''topic:cli''" None "world0 ()"]
  have "\<exists>resp w1.
          github_search_count (const_remote 1000) (full_query_of ''topic:cli'' ?s ?s) None
            (world0 ()) = (Inr resp, w1)
          \<and> count_range (const_remote 1000) ''topic:cli'' ?s ?s None True (world0 ())
              = (Inr (total_of resp), w1)"
    by blast
  then have b: "count_range (const_remote 1000) ''topic:cli'' ?s ?s None True (world0 ())
       = (Inr 1000,
          \<lparr>server = (),
           exchanges =
             [(search_request (full_query_of ''topic:cli'' ?s ?s) None,
               \<lparr>status_code = 200, json = [''total_count'' \<mapsto> 1000]\<rparr>)],
           printed = [], slept = []\<rparr>)"
    by (auto simp: const_remote_first_reply total_of_def)
  from a b show ?thesis
    by blast
qed

subsection \<open>A reply with an error status\<close>

lemma trace_ok_error_member:
  assumes t: "trace_ok res xs"
    and m: "(req, resp) \<in> set xs"
    and bad: "is_error_status (status_code resp)"
  shows "res = Inl (HTTPError (status_code resp)) \<and> last xs = (req, resp)"
proof -
  from t have ne: "xs \<noteq> []"
    and b: "\<forall>x \<in> set (butlast xs). \<not> is_error_status (status_code (snd x))"
    and l: "is_error_status (status_code (snd (last xs)))
              \<longrightarrow> res = Inl (HTTPError (status_code (snd (last xs))))"
    unfolding trace_ok_def by blast+
  from m set_butlast_last [OF ne] have "(req, resp) = last xs \<or> (req, resp) \<in> set (butlast xs)"
    by blast
  moreover have "(req, resp) \<notin> set (butlast xs)"
  proof
    assume "(req, resp) \<in> set (butlast xs)"
    with b have "\<not> is_error_status (status_code (snd (req, resp)))"
      by (rule bspec)
    with bad show False
      by simp
  qed
  ultimately have last: "last xs = (req, resp)"
    by simp
  with l bad show ?thesis
    by simp
qed

lemma count_range_error_last:
  assumes c: "count_range remote query_base start end' token exact w = (res, w')"
    and m: "(req, resp) \<in> set (drop (length (exchanges w)) (exchanges w'))"
    and bad: "is_error_status (status_code resp)"
  shows "res = Inl (HTTPError (status_code resp)) \<and> last (exchanges w') = (req, resp)
         \<and> printed w' = printed w"
proof -
  from count_range_trace [of remote query_base start end' token exact w] c
  obtain xs where ex: "exchanges w' = exchanges w @ xs"
    and pr: "printed w' = printed w"
    and t: "trace_ok res xs"
    by auto
  from m ex have m': "(req, resp) \<in> set xs"
    by simp
  from t have "xs \<noteq> []"
    by (simp add: trace_ok_def)
  with ex have "last (exchanges w') = last xs"
    by simp
  with trace_ok_error_member [OF t m' bad] pr show ?thesis
    by simp
qed

lemma per_term_loop_trace:
  "per_term_loop remote ts start end' token exact sl results w = (res, w') \<Longrightarrow>
   \<exists>xs ls. exchanges w' = exchanges w @ xs \<and> printed w' = printed w @ ls
     \<and> (\<forall>l \<in> set ls. is_term_count l)
     \<and> (\<forall>req resp. (req, resp) \<in> set xs \<longrightarrow> is_error_status (status_code resp)
           \<longrightarrow> res = Inl (HTTPError (status_code resp)) \<and> last xs = (req, resp))"
proof (induction ts arbitrary: results w)
  case Nil
  then have "w' = w"
    by simp
  then have nil: "exchanges w' = exchanges w @ [] \<and> printed w' = printed w @ []
     \<and> (\<forall>l \<in> set []. is_term_count l)
     \<and> (\<forall>req resp. (req, resp) \<in> set [] \<longrightarrow> is_error_status (status_code resp)
           \<longrightarrow> res = Inl (HTTPError (status_code resp)) \<and> last [] = (req, resp))"
    by simp
  show ?case
    by (rule exI [where x = "[]"], rule exI [where x = "[]"]) (rule nil)
next
  case (Cons t ts)
  obtain r1 w1 where c: "count_range remote t start end' token exact w = (r1, w1)"
    by (cases "count_range remote t start end' token exact w")
  from count_range_trace [of remote t start end' token exact w] c
  obtain ys where ex1: "exchanges w1 = exchanges w @ ys"
    and pr1: "printed w1 = printed w"
    and t1: "trace_ok r1 ys"
    by auto
  show ?case
  proof (cases r1)
    case (Inl e)
    with c Cons.prems have res: "res = Inl e" and w': "w' = w1"
      by simp_all
    have "\<forall>req resp. (req, resp) \<in> set ys \<longrightarrow> is_error_status (status_code resp)
           \<longrightarrow> res = Inl (HTTPError (status_code resp)) \<and> last ys = (req, resp)"
    proof (intro allI impI)
      fix req resp
      assume "(req, resp) \<in> set ys" and "is_error_status (status_code resp)"
      from trace_ok_error_member [OF t1 this] Inl res
      show "res = Inl (HTTPError (status_code resp)) \<and> last ys = (req, resp)"
        by simp
    qed
    with ex1 pr1 w' have all: "exchanges w' = exchanges w @ ys \<and> printed w' = printed w @ []
     \<and> (\<forall>l \<in> set []. is_term_count l)
     \<and> (\<forall>req resp. (req, resp) \<in> set ys \<longrightarrow> is_error_status (status_code resp)
           \<longrightarrow> res = Inl (HTTPError (status_code resp)) \<and> last ys = (req, resp))"
      by simp
    show ?thesis
      by (rule exI [where x = ys], rule exI [where x = "[]"]) (rule all)
  next
    case (Inr cnt)
    let ?w2 = "print_line (Term_count t cnt) w1"
    let ?w3 = "if sl \<noteq> 0 then ?w2\<lparr>slept := slept ?w2 @ [sl]\<rparr> else ?w2"
    from c Inr Cons.prems
    have rest: "per_term_loop remote ts start end' token exact sl (dict_set results t cnt) ?w3
                  = (res, w')"
      by (simp add: Let_def)
    have ex3: "exchanges ?w3 = exchanges w1"
      and pr3: "printed ?w3 = printed w1 @ [Term_count t cnt]"
      by (simp_all add: print_line_def)
    from Cons.IH [OF rest] obtain zs ls where
      exz: "exchanges w' = exchanges ?w3 @ zs"
      and prz: "printed w' = printed ?w3 @ ls"
      and lsz: "\<forall>l \<in> set ls. is_term_count l"
      and errz: "\<forall>req resp. (req, resp) \<in> set zs \<longrightarrow> is_error_status (status_code resp)
                   \<longrightarrow> res = Inl (HTTPError (status_code resp)) \<and> last zs = (req, resp)"
      by blast
    from t1 Inr have t1': "trace_ok (Inr cnt) ys"
      by simp
    have oky: "\<not> is_error_status (status_code (snd x))" if "x \<in> set ys" for x
      using t1' that by (rule trace_ok_all)
    have err: "\<forall>req resp. (req, resp) \<in> set (ys @ zs) \<longrightarrow> is_error_status (status_code resp)
           \<longrightarrow> res = Inl (HTTPError (status_code resp)) \<and> last (ys @ zs) = (req, resp)"
    proof (intro allI impI)
      fix req resp
      assume m: "(req, resp) \<in> set (ys @ zs)" and bad: "is_error_status (status_code resp)"
      have "(req, resp) \<notin> set ys"
      proof
        assume "(req, resp) \<in> set ys"
        from oky [OF this] bad show False
          by simp
      qed
      with m have mz: "(req, resp) \<in> set zs"
        by simp
      then have "zs \<noteq> []"
        by auto
      then have "last (ys @ zs) = last zs"
        by simp
      with errz mz bad show "res = Inl (HTTPError (status_code resp)) \<and> last (ys @ zs) = (req, resp)"
        by simp
    qed
    from lsz have ls': "\<forall>l \<in> set (Term_count t cnt # ls). is_term_count l"
      by simp
    from exz ex3 ex1 have e: "exchanges w' = exchanges w @ (ys @ zs)"
      by simp
    from prz pr3 pr1 have p: "printed w' = printed w @ (Term_count t cnt # ls)"
      by simp
    from e p ls' err have all: "exchanges w' = exchanges w @ (ys @ zs)
       \<and> printed w' = printed w @ (Term_count t cnt # ls)
       \<and> (\<forall>l \<in> set (Term_count t cnt # ls). is_term_count l)
       \<and> (\<forall>req resp. (req, resp) \<in> set (ys @ zs) \<longrightarrow> is_error_status (status_code resp)
             \<longrightarrow> res = Inl (HTTPError (status_code resp)) \<and> last (ys @ zs) = (req, resp))"
      by (intro conjI)
    show ?thesis
      by (rule exI [where x = "ys @ zs"], rule exI [where x = "Term_count t cnt # ls"]) (rule all)
  qed
qed

end
